theory Spec2Isabelle
  imports Main "HOL-Library.Word"
begin

text \<open>
  The source \<^verbatim>\<open>index.js\<close> holds two revisions of the module, one after the
  other. The development follows the second one (lines 339 to 644), in which every
  operation builds its answer with \<open>custom\<close>: it is the revision the specification
  describes. The functions of the first revision (lines 1 to 338) that the properties
  below speak of are modelled beside it, under the suffix \<open>_rev1\<close>.
\<close>

section \<open>Strings\<close>

text \<open>
  A string of JavaScript is a sequence of UTF-16 code units. \<open>js\<close> writes one from
  the characters of a literal.
\<close>

type_synonym jsstring = "16 word list"

definition js :: "string \<Rightarrow> jsstring" where
  "js s = map of_char s"


section \<open>Values\<close>

text \<open>
  The data the module is handed: requests, properties of responses, payloads, errors.
  An object is the list of its own data properties, the first binding of a name being
  the property. A number is given by its canonical decimal form, the string that
  \<^verbatim>\<open>String\<close> prints for it: of a number the module asks nothing but this string
  and whether it is zero or \<^verbatim>\<open>NaN\<close>. \<open>JError name message\<close> is an instance of
  \<^verbatim>\<open>Error\<close>.
\<close>

datatype jsval =
    JUndefined
  | JNull
  | JBool bool
  | JNum jsstring
  | JStr jsstring
  | JArr "jsval list"
  | JObj "(jsstring \<times> jsval) list"
  | JError jsstring jsstring

datatype exn = TypeError

text \<open>Truthiness, as the conditional operator tests it.\<close>

fun truthy :: "jsval \<Rightarrow> bool" where
  "truthy JUndefined = False"
| "truthy JNull = False"
| "truthy (JBool b) = b"
| "truthy (JNum n) = (n \<noteq> js ''0'' \<and> n \<noteq> js ''NaN'')"
| "truthy (JStr s) = (s \<noteq> [])"
| "truthy v = True"

text \<open>\<^verbatim>\<open>Error.prototype.toString\<close>, for a name and a message that are strings.\<close>

definition error_string :: "jsstring \<Rightarrow> jsstring \<Rightarrow> jsstring" where
  "error_string name message =
     (if name = [] then message
      else if message = [] then name
      else name @ js '': '' @ message)"

text \<open>
  \<^verbatim>\<open>Array.prototype.join\<close> on the converted elements: commas between them, and
  the first conversion that raises ends the join.
\<close>

fun join_strings :: "(exn + jsstring) list \<Rightarrow> exn + jsstring" where
  "join_strings [] = Inr []"
| "join_strings [r] = r"
| "join_strings (r # rs) =
     (case r of
        Inl e \<Rightarrow> Inl e
      | Inr s \<Rightarrow> (case join_strings rs of Inl e \<Rightarrow> Inl e | Inr t \<Rightarrow> Inr (s @ js '','' @ t)))"

text \<open>
  \<^verbatim>\<open>String(v)\<close>, which a template literal applies as well. An object converts by
  its \<^verbatim>\<open>toString\<close>: the inherited one gives \<^verbatim>\<open>[object Object]\<close>; an own
  property of that name is data here, not a function, and then the conversion raises.
  An array joins its elements, \<^verbatim>\<open>undefined\<close> and \<^verbatim>\<open>null\<close> giving the empty
  string.
\<close>

fun to_string :: "jsval \<Rightarrow> exn + jsstring" where
  "to_string JUndefined = Inr (js ''undefined'')"
| "to_string JNull = Inr (js ''null'')"
| "to_string (JBool b) = Inr (if b then js ''true'' else js ''false'')"
| "to_string (JNum n) = Inr n"
| "to_string (JStr s) = Inr s"
| "to_string (JArr vs) =
     join_strings (map (\<lambda>v. if v = JUndefined \<or> v = JNull then Inr [] else to_string v) vs)"
| "to_string (JObj kvs) =
     (case map_of kvs (js ''toString'') of
        None \<Rightarrow> Inr (js ''[object Object]'')
      | Some v \<Rightarrow> Inl TypeError)"
| "to_string (JError name message) = Inr (error_string name message)"


section \<open>The prototype of plain objects\<close>

text \<open>
  The locale table is an object, and so are its entries: a read of a name they do not
  have themselves goes on to \<^verbatim>\<open>Object.prototype\<close>, which has these twelve members.
\<close>

datatype member =
    Constructor | DefineGetter | DefineSetter | HasOwnProperty | LookupGetter
  | LookupSetter | IsPrototypeOf | PropertyIsEnumerable | ToString | ValueOf | Proto
  | ToLocaleString

fun member_name :: "member \<Rightarrow> string" where
  "member_name Constructor = ''constructor''"
| "member_name DefineGetter = ''__defineGetter__''"
| "member_name DefineSetter = ''__defineSetter__''"
| "member_name HasOwnProperty = ''hasOwnProperty''"
| "member_name LookupGetter = ''__lookupGetter__''"
| "member_name LookupSetter = ''__lookupSetter__''"
| "member_name IsPrototypeOf = ''isPrototypeOf''"
| "member_name PropertyIsEnumerable = ''propertyIsEnumerable''"
| "member_name ToString = ''toString''"
| "member_name ValueOf = ''valueOf''"
| "member_name Proto = ''__proto__''"
| "member_name ToLocaleString = ''toLocaleString''"

definition members :: "member list" where
  "members = [Constructor, DefineGetter, DefineSetter, HasOwnProperty, LookupGetter,
     LookupSetter, IsPrototypeOf, PropertyIsEnumerable, ToString, ValueOf, Proto,
     ToLocaleString]"

definition member_of :: "jsstring \<Rightarrow> member option" where
  "member_of k = map_of (map (\<lambda>m. (js (member_name m), m)) members) k"

text \<open>What a read of the name \<open>k\<close> finds in an object with the own properties \<open>kvs\<close>.\<close>

datatype 'a slot = Own 'a | Inherited member | Absent

definition slot :: "(jsstring \<times> 'a) list \<Rightarrow> jsstring \<Rightarrow> 'a slot" where
  "slot kvs k =
     (case map_of kvs k of
        Some v \<Rightarrow> Own v
      | None \<Rightarrow> (case member_of k of Some m \<Rightarrow> Inherited m | None \<Rightarrow> Absent))"

text \<open>
  What a read can give: data, or an object or function of the runtime itself, named as
  the language standard names it.
\<close>

datatype anyval = Data jsval | Builtin string

text \<open>
  The value a plain object has under an inherited name. \<^verbatim>\<open>constructor\<close> is the
  function \<^verbatim>\<open>Object\<close>, \<^verbatim>\<open>__proto__\<close> gives the prototype of the object that
  is read, here \<^verbatim>\<open>Object.prototype\<close>, and the ten others are functions.
\<close>

fun member_value :: "member \<Rightarrow> anyval" where
  "member_value Constructor = Builtin ''Object''"
| "member_value Proto = Builtin ''Object.prototype''"
| "member_value m = Builtin (''Object.prototype.'' @ member_name m)"

text \<open>The number of parameters that each of the functions declares, as a number.\<close>

fun member_length :: "member \<Rightarrow> string" where
  "member_length Constructor = ''1''"
| "member_length DefineGetter = ''2''"
| "member_length DefineSetter = ''2''"
| "member_length HasOwnProperty = ''1''"
| "member_length LookupGetter = ''1''"
| "member_length LookupSetter = ''1''"
| "member_length IsPrototypeOf = ''1''"
| "member_length PropertyIsEnumerable = ''1''"
| "member_length m = ''0''"

text \<open>The static functions of \<^verbatim>\<open>Object\<close>, as ECMAScript 2024 lists them.\<close>

definition object_statics :: "string list" where
  "object_statics =
     [''assign'', ''create'', ''defineProperties'', ''defineProperty'', ''entries'',
      ''freeze'', ''fromEntries'', ''getOwnPropertyDescriptor'',
      ''getOwnPropertyDescriptors'', ''getOwnPropertyNames'', ''getOwnPropertySymbols'',
      ''getPrototypeOf'', ''groupBy'', ''hasOwn'', ''is'', ''isExtensible'', ''isFrozen'',
      ''isSealed'', ''keys'', ''preventExtensions'', ''seal'', ''setPrototypeOf'',
      ''values'']"

text \<open>The own properties of the function that \<^verbatim>\<open>Object.prototype\<close> has under \<open>m\<close>.\<close>

definition function_own :: "member \<Rightarrow> (jsstring \<times> anyval) list" where
  "function_own m =
     [(js ''length'', Data (JNum (js (member_length m)))),
      (js ''name'', Data (JStr (js (if m = Constructor then ''Object'' else member_name m))))]
     @ (if m = Constructor
        then (js ''prototype'', Builtin ''Object.prototype'')
             # map (\<lambda>s. (js s, Builtin (''Object.'' @ s))) object_statics
        else [])"

text \<open>
  The data properties of \<^verbatim>\<open>Function.prototype\<close>. Its two accessors,
  \<^verbatim>\<open>caller\<close> and \<^verbatim>\<open>arguments\<close>, raise a type error when read on a function of
  the runtime.
\<close>

definition function_prototype :: "(jsstring \<times> anyval) list" where
  "function_prototype =
     [(js ''length'', Data (JNum (js ''0''))),
      (js ''name'', Data (JStr [])),
      (js ''constructor'', Builtin ''Function''),
      (js ''apply'', Builtin ''Function.prototype.apply''),
      (js ''bind'', Builtin ''Function.prototype.bind''),
      (js ''call'', Builtin ''Function.prototype.call''),
      (js ''toString'', Builtin ''Function.prototype.toString'')]"

text \<open>
  Reading the name \<open>k\<close> in the value a plain object has under the inherited name
  \<open>m\<close>. Under \<^verbatim>\<open>__proto__\<close> that value is \<^verbatim>\<open>Object.prototype\<close>, whose own
  prototype is \<^verbatim>\<open>null\<close>. Under the other names it is a function: the read looks
  at the function itself, then at \<^verbatim>\<open>Function.prototype\<close>, then at
  \<^verbatim>\<open>Object.prototype\<close>.
\<close>

definition member_get :: "member \<Rightarrow> jsstring \<Rightarrow> exn + anyval" where
  "member_get m k =
     (if m = Proto then
        (case member_of k of
           Some Proto \<Rightarrow> Inr (Data JNull)
         | Some m' \<Rightarrow> Inr (member_value m')
         | None \<Rightarrow> Inr (Data JUndefined))
      else
        (case map_of (function_own m) k of
           Some v \<Rightarrow> Inr v
         | None \<Rightarrow>
             if k = js ''caller'' \<or> k = js ''arguments'' then Inl TypeError
             else
               (case map_of function_prototype k of
                  Some v \<Rightarrow> Inr v
                | None \<Rightarrow>
                    (case member_of k of
                       Some Proto \<Rightarrow> Inr (Builtin ''Function.prototype'')
                     | Some m' \<Rightarrow> Inr (member_value m')
                     | None \<Rightarrow> Inr (Data JUndefined)))))"


section \<open>Translator\<close>

text \<open>
  The locale table is loaded from \<^verbatim>\<open>lang.json\<close>, which is not part of the
  sources; it is a parameter of \<open>translate\<close>: an object that maps locale codes to
  objects that map message keys to strings.
\<close>

type_synonym locale_table = "(jsstring \<times> (jsstring \<times> jsstring) list) list"

text \<open>
  The reads \<^verbatim>\<open>request.query\<close> and \<^verbatim>\<open>query.lang\<close>. They raise on
  \<^verbatim>\<open>undefined\<close> and \<^verbatim>\<open>null\<close>; an object gives its own property; no prototype
  has a member of either name, so that every other read gives \<^verbatim>\<open>undefined\<close>.
\<close>

fun request_query :: "jsval \<Rightarrow> exn + jsval" where
  "request_query JUndefined = Inl TypeError"
| "request_query JNull = Inl TypeError"
| "request_query (JObj kvs) =
     Inr (case map_of kvs (js ''query'') of Some v \<Rightarrow> v | None \<Rightarrow> JUndefined)"
| "request_query v = Inr JUndefined"

fun query_lang :: "jsval \<Rightarrow> exn + jsval" where
  "query_lang JUndefined = Inl TypeError"
| "query_lang JNull = Inl TypeError"
| "query_lang (JObj kvs) =
     Inr (case map_of kvs (js ''lang'') of Some v \<Rightarrow> v | None \<Rightarrow> JUndefined)"
| "query_lang v = Inr JUndefined"

text \<open>
  \<^verbatim>\<open>request.query.lang ? request.query.lang : "eng"\<close>. Both reads can raise: the
  function has no guard for a request without a query.
\<close>

definition handleLanguage :: "jsval \<Rightarrow> exn + jsval" where
  "handleLanguage request =
     (case request_query request of
        Inl e \<Rightarrow> Inl e
      | Inr q \<Rightarrow>
          (case query_lang q of
             Inl e \<Rightarrow> Inl e
           | Inr l \<Rightarrow> if truthy l then Inr l else Inr (JStr (js ''eng''))))"

text \<open>
  The double read \<^verbatim>\<open>lang[a][b]\<close>. Where the table has nothing under \<open>a\<close> the
  second read is of \<^verbatim>\<open>undefined\<close> and raises; where \<open>a\<close> is an inherited name
  the second read is of a value of the runtime.
\<close>

definition entry :: "locale_table \<Rightarrow> jsstring \<Rightarrow> jsstring \<Rightarrow> exn + anyval" where
  "entry lang a b =
     (case slot lang a of
        Absent \<Rightarrow> Inl TypeError
      | Own entries \<Rightarrow>
          Inr (case slot entries b of
                 Own t \<Rightarrow> Data (JStr t)
               | Inherited m \<Rightarrow> member_value m
               | Absent \<Rightarrow> Data JUndefined)
      | Inherited m \<Rightarrow> member_get m b)"

text \<open>
  The language is resolved before the \<^verbatim>\<open>try\<close> block, so that what
  \<open>handleLanguage\<close> raises leaves \<open>translate\<close>. What the conversion of the language
  to a string or the lookup raises is caught, and the handler reads the \<^verbatim>\<open>eng\<close>
  entry.
\<close>

definition translate :: "locale_table \<Rightarrow> jsval \<Rightarrow> jsstring \<Rightarrow> exn + anyval" where
  "translate lang request message =
     (case handleLanguage request of
        Inl e \<Rightarrow> Inl e
      | Inr language \<Rightarrow>
          (case (case to_string language of
                   Inl e \<Rightarrow> Inl e
                 | Inr locale \<Rightarrow> entry lang locale message) of
             Inr v \<Rightarrow> Inr v
           | Inl err \<Rightarrow> entry lang (js ''eng'') message))"


section \<open>Response formatter\<close>

text \<open>
  What the module writes: values, and the object and array literals it builds around
  them.
\<close>

datatype out = Val anyval | Obj "(jsstring \<times> out) list" | Arr "out list"

text \<open>
  The response sink: the status code set so far, the bodies written in order, each by
  \<^verbatim>\<open>json\<close> or by \<^verbatim>\<open>send\<close>, and whatever other data properties the object has.
\<close>

datatype body = Json out | Sent out

record response =
  statusCode :: int
  bodies :: "body list"
  props :: "(jsstring \<times> jsval) list"

definition status :: "int \<Rightarrow> response \<Rightarrow> response" where
  "status code res = res\<lparr>statusCode := code\<rparr>"

definition json :: "out \<Rightarrow> response \<Rightarrow> response" where
  "json b res = res\<lparr>bodies := bodies res @ [Json b]\<rparr>"

definition send :: "out \<Rightarrow> response \<Rightarrow> response" where
  "send b res = res\<lparr>bodies := bodies res @ [Sent b]\<rparr>"

definition envelope :: "jsval \<Rightarrow> jsval \<Rightarrow> anyval \<Rightarrow> out" where
  "envelope success data message =
     Obj [(js ''success'', Val (Data success)), (js ''data'', Val (Data data)),
          (js ''message'', Val message)]"

definition custom :: "response \<Rightarrow> int \<Rightarrow> jsval \<Rightarrow> jsval \<Rightarrow> anyval \<Rightarrow> response" where
  "custom res code success data message =
     json (envelope success data message) (status code res)"

text \<open>
  What a call leaves behind: the exception it raised, if any, and the response object
  as the call left it. An operation that translates evaluates \<open>translate\<close> as an
  argument, before \<open>custom\<close> runs: when it raises, the response is untouched.
\<close>

type_synonym outcome = "exn option \<times> response"

definition badResquest :: "locale_table \<Rightarrow> jsval \<Rightarrow> response \<Rightarrow> outcome" where
  "badResquest lang req res =
     (case translate lang req (js ''missing_parameters'') of
        Inl e \<Rightarrow> (Some e, res)
      | Inr m \<Rightarrow> (None, custom res 400 (JBool False) JNull m))"

definition notFound :: "locale_table \<Rightarrow> jsval \<Rightarrow> response \<Rightarrow> outcome" where
  "notFound lang req res =
     (case translate lang req (js ''not_found'') of
        Inl e \<Rightarrow> (Some e, res)
      | Inr m \<Rightarrow> (None, custom res 404 (JBool True) (JObj []) m))"

definition success :: "locale_table \<Rightarrow> jsval \<Rightarrow> response \<Rightarrow> outcome" where
  "success lang req res =
     (case translate lang req (js ''successfull_operation'') of
        Inl e \<Rightarrow> (Some e, res)
      | Inr m \<Rightarrow> (None, custom res 201 (JBool False) JNull m))"

text \<open>
  The response object seen as a value, for the reads of properties other than the
  status code and the bodies.
\<close>

definition as_object :: "response \<Rightarrow> jsval" where
  "as_object res = JObj (props res)"

text \<open>
  \<^verbatim>\<open>res.status(422).send(translate(res, "422_error"))\<close>: the status is set first,
  then the argument is evaluated, and it is the response that is handed to
  \<open>translate\<close>; the request is not used.
\<close>

definition unprocessable_content :: "locale_table \<Rightarrow> jsval \<Rightarrow> response \<Rightarrow> outcome" where
  "unprocessable_content lang req res =
     (let res' = status 422 res in
      case translate lang (as_object res') (js ''422_error'') of
        Inl e \<Rightarrow> (Some e, res')
      | Inr m \<Rightarrow> (None, send (Val m) res'))"


section \<open>The first revision\<close>

text \<open>
  \<^verbatim>\<open>!request?.query["lang"] ? "eng" : request?.query["lang"]\<close>: the optional
  chain gives \<^verbatim>\<open>undefined\<close> for a request that is \<^verbatim>\<open>undefined\<close> or
  \<^verbatim>\<open>null\<close>, and reads as before otherwise.
\<close>

definition handleLanguage_rev1 :: "jsval \<Rightarrow> exn + jsval" where
  "handleLanguage_rev1 request =
     (if request = JUndefined \<or> request = JNull then Inr (JStr (js ''eng''))
      else
        (case request_query request of
           Inl e \<Rightarrow> Inl e
         | Inr q \<Rightarrow>
             (case query_lang q of
                Inl e \<Rightarrow> Inl e
              | Inr l \<Rightarrow> if \<not> truthy l then Inr (JStr (js ''eng'')) else Inr l)))"

text \<open>
  Here the language is resolved inside the \<^verbatim>\<open>try\<close> block, and it is used as a
  property name as it is, which converts it to a string.
\<close>

definition translate_rev1 :: "locale_table \<Rightarrow> jsval \<Rightarrow> jsstring \<Rightarrow> exn + anyval" where
  "translate_rev1 lang request message =
     (case (case handleLanguage_rev1 request of
              Inl e \<Rightarrow> Inl e
            | Inr language \<Rightarrow>
                (case to_string language of
                   Inl e \<Rightarrow> Inl e
                 | Inr locale \<Rightarrow> entry lang locale message)) of
        Inr v \<Rightarrow> Inr v
      | Inl err \<Rightarrow> entry lang (js ''eng'') message)"

text \<open>
  The operations of the first revision set the status and then build the body, in
  which the message is translated: when that raises, the status is already set.
\<close>

definition badResquest_rev1 :: "locale_table \<Rightarrow> jsval \<Rightarrow> response \<Rightarrow> outcome" where
  "badResquest_rev1 lang req res =
     (let res' = status 400 res in
      case translate_rev1 lang req (js ''missing_parameters'') of
        Inl e \<Rightarrow> (Some e, res')
      | Inr m \<Rightarrow>
          (None, send (Obj [(js ''errors'',
                   Arr [Obj [(js ''msg'', Val m),
                             (js ''location'', Val (Data (JStr (js ''params''))))]])]) res'))"


definition unprocessable_content_rev1 :: "locale_table \<Rightarrow> jsval \<Rightarrow> response \<Rightarrow> outcome" where
  "unprocessable_content_rev1 lang req res =
     (let res' = status 422 res in
      case translate_rev1 lang req (js ''422_error'') of
        Inl e \<Rightarrow> (Some e, res')
      | Inr m \<Rightarrow> (None, send (Val m) res'))"


section \<open>Notifier\<close>

text \<open>The configuration read from \<^verbatim>\<open>process.env\<close>: each value a string or absent.\<close>

record env =
  ALLOW_NOTIF :: "jsstring option"
  ALLOW_LOG_NOTIF :: "jsstring option"
  ERROR_HOOK :: "jsstring option"
  LOG_HOOK :: "jsstring option"
  NODE_ENV :: "jsstring option"

definition env_value :: "jsstring option \<Rightarrow> jsval" where
  "env_value x = (case x of None \<Rightarrow> JUndefined | Some s \<Rightarrow> JStr s)"

text \<open>
  The HTTP client is outside the module. What the module sees of a POST is how its
  promise settles: fulfilled, rejected, or never. The client rejects with an error
  object, given here by its name and message. \<open>transport n\<close> is the settlement of the
  \<open>n\<close>-th POST issued. The clock gives the formatted time
  \<^verbatim>\<open>format(new Date(), ...)\<close> as a function of the number of POSTs issued so far.
\<close>

datatype settlement = Resolved | Rejected jsstring jsstring | Pending

fun is_rejected :: "settlement \<Rightarrow> bool" where
  "is_rejected (Rejected name message) = True"
| "is_rejected s = False"

text \<open>
  The world outside: the POSTs issued so far with hook and content, oldest first, and
  how many of them have had their settlement handled.
\<close>

record world =
  posts :: "(jsval \<times> jsval) list"
  delivered :: nat

definition idle :: world where
  "idle = \<lparr>posts = [], delivered = 0\<rparr>"

text \<open>The promise an asynchronous function hands to its caller, as an await finds it.\<close>

datatype 'a promise = Fulfilled 'a | Failed exn | Forever

text \<open>
  \<open>custom_notify\<close> starts the POST and attaches its handlers, without awaiting it: the
  promise it returns is fulfilled whatever the POST does later.
\<close>

definition custom_notify :: "env \<Rightarrow> jsval \<Rightarrow> jsval \<Rightarrow> world \<Rightarrow> unit promise \<times> world" where
  "custom_notify env hook content w =
     (if ALLOW_NOTIF env = Some (js ''true'')
      then (Fulfilled (), w\<lparr>posts := posts w @ [(hook, content)]\<rparr>)
      else (Fulfilled (), w))"

definition error_notification :: "env \<Rightarrow> jsval \<Rightarrow> world \<Rightarrow> unit promise \<times> world" where
  "error_notification env content w = custom_notify env (env_value (ERROR_HOOK env)) content w"

definition log_notification :: "env \<Rightarrow> jsval \<Rightarrow> world \<Rightarrow> unit promise \<times> world" where
  "log_notification env content w =
     (if ALLOW_LOG_NOTIF env = Some (js ''true'')
      then custom_notify env (env_value (LOG_HOOK env)) content w
      else (Fulfilled (), w))"

text \<open>The two-block message both call sites build: the time in a section, a text in a context.\<close>

definition blocks :: "jsstring \<Rightarrow> jsstring \<Rightarrow> jsval" where
  "blocks dateTime txt =
     JObj [(js ''blocks'', JArr
       [JObj [(js ''type'', JStr (js ''section'')),
              (js ''text'', JObj [(js ''type'', JStr (js ''mrkdwn'')),
                                  (js ''text'', JStr (js ''`'' @ dateTime @ js ''`''))])],
        JObj [(js ''type'', JStr (js ''context'')),
              (js ''elements'', JArr [JObj [(js ''type'', JStr (js ''mrkdwn'')),
                                            (js ''text'', JStr txt)]])]])]"

text \<open>
  The \<^verbatim>\<open>catch\<close> handler of the POST: it converts the error to a string for the
  text of a message and reports the failure through \<open>error_notification\<close>, whose
  promise it drops. Were the conversion to raise, the handler would end there.
\<close>

definition on_rejected :: "env \<Rightarrow> (nat \<Rightarrow> jsstring) \<Rightarrow> jsval \<Rightarrow> world \<Rightarrow> world" where
  "on_rejected env clock err w =
     (case to_string err of
        Inl e \<Rightarrow> w
      | Inr s \<Rightarrow>
          snd (error_notification env
                 (blocks (clock (length (posts w)))
                    (js ''*error while sending notification* '' @ [0x0A] @ s)) w))"

text \<open>
  One turn of the event loop: the oldest POST not handled yet settles. A fulfilled one
  runs the empty \<^verbatim>\<open>then\<close> handler, a rejected one the \<^verbatim>\<open>catch\<close> handler, and
  one that never settles runs nothing.
\<close>

definition deliver :: "env \<Rightarrow> (nat \<Rightarrow> settlement) \<Rightarrow> (nat \<Rightarrow> jsstring) \<Rightarrow> world \<Rightarrow> world" where
  "deliver env transport clock w =
     (let w' = w\<lparr>delivered := Suc (delivered w)\<rparr> in
      case transport (delivered w) of
        Rejected name message \<Rightarrow> on_rejected env clock (JError name message) w'
      | Resolved \<Rightarrow> w'
      | Pending \<Rightarrow> w')"

text \<open>The event loop runs until no POST is left to handle; it need not get there.\<close>

partial_function (option) event_loop ::
  "env \<Rightarrow> (nat \<Rightarrow> settlement) \<Rightarrow> (nat \<Rightarrow> jsstring) \<Rightarrow> world \<Rightarrow> world option" where
  "event_loop env transport clock w =
     (if delivered w < length (posts w)
      then event_loop env transport clock (deliver env transport clock w)
      else Some w)"

declare event_loop.simps [code]

text \<open>A caller notifies from the idle world, and the event loop takes over.\<close>

definition notify_run ::
  "env \<Rightarrow> (nat \<Rightarrow> settlement) \<Rightarrow> (nat \<Rightarrow> jsstring) \<Rightarrow> jsval \<Rightarrow> jsval \<Rightarrow> world option" where
  "notify_run env transport clock hook content =
     event_loop env transport clock (snd (custom_notify env hook content idle))"

text \<open>
  \<open>error\<close> builds the message, whose template literal converts the environment name
  and the error to strings, awaits the promise of \<open>error_notification\<close> and then
  writes the response. A conversion that raises makes the promise of \<open>error\<close> fail
  before anything is posted or written. An await of a promise that failed raises, and
  of one that never settles never returns.
\<close>

definition error ::
  "env \<Rightarrow> (nat \<Rightarrow> jsstring) \<Rightarrow> response \<Rightarrow> jsval \<Rightarrow> world \<Rightarrow> response promise \<times> world" where
  "error env clock res err w =
     (let dateTime = clock (length (posts w)) in
      case to_string (env_value (NODE_ENV env)) of
        Inl e \<Rightarrow> (Failed e, w)
      | Inr node_env \<Rightarrow>
          (case to_string err of
             Inl e \<Rightarrow> (Failed e, w)
           | Inr s \<Rightarrow>
               (let (p, w') = error_notification env
                      (blocks dateTime
                         (js ''*ERREUR 500 - ENV '' @ node_env @ js ''* '' @ [0x0A] @ s)) w
                in case p of
                     Fulfilled u \<Rightarrow> (Fulfilled (custom res 500 (JBool False) JNull (Data err)), w')
                   | Failed e \<Rightarrow> (Failed e, w')
                   | Forever \<Rightarrow> (Forever, w'))))"

text \<open>
  A handler answers with \<open>error\<close> from the idle world; the event loop then handles the
  notification traffic.
\<close>

definition error_run ::
  "env \<Rightarrow> (nat \<Rightarrow> settlement) \<Rightarrow> (nat \<Rightarrow> jsstring) \<Rightarrow> response \<Rightarrow> jsval
     \<Rightarrow> response promise \<times> world option" where
  "error_run env transport clock res err =
     (let (p, w) = error env clock res err idle in (p, event_loop env transport clock w))"


section \<open>Slugs\<close>

text \<open>
  The regular expressions have no flag but \<^verbatim>\<open>g\<close>: they see code units.
  \<^verbatim>\<open>\s\<close> and \<^verbatim>\<open>trim\<close> take the same code units for white space: tab, line
  feed, vertical tab, form feed, carriage return, space, no-break space, the spaces
  \<^verbatim>\<open>U+1680\<close>, \<^verbatim>\<open>U+2000\<close> to \<^verbatim>\<open>U+200A\<close>, \<^verbatim>\<open>U+202F\<close>,
  \<^verbatim>\<open>U+205F\<close> and \<^verbatim>\<open>U+3000\<close>, the separators \<^verbatim>\<open>U+2028\<close> and
  \<^verbatim>\<open>U+2029\<close>, and the byte order mark \<^verbatim>\<open>U+FEFF\<close>. \<^verbatim>\<open>\w\<close> is the
  ASCII letters, the digits and the underscore.
\<close>

definition is_space :: "16 word \<Rightarrow> bool" where
  "is_space c \<longleftrightarrow>
     unat c \<in> set [0x09, 0x0A, 0x0B, 0x0C, 0x0D, 0x20, 0xA0, 0x1680, 0x2000, 0x2001, 0x2002,
                  0x2003, 0x2004, 0x2005, 0x2006, 0x2007, 0x2008, 0x2009, 0x200A, 0x2028,
                  0x2029, 0x202F, 0x205F, 0x3000, 0xFEFF]"

definition is_upper :: "16 word \<Rightarrow> bool" where
  "is_upper c \<longleftrightarrow> 0x41 \<le> unat c \<and> unat c \<le> 0x5A"

definition is_word :: "16 word \<Rightarrow> bool" where
  "is_word c \<longleftrightarrow>
     (0x30 \<le> unat c \<and> unat c \<le> 0x39) \<or> (0x41 \<le> unat c \<and> unat c \<le> 0x5A) \<or> unat c = 0x5F
       \<or> (0x61 \<le> unat c \<and> unat c \<le> 0x7A)"

definition hyphen :: "16 word" where
  "hyphen = 0x2D"

definition trim :: "jsstring \<Rightarrow> jsstring" where
  "trim s = rev (dropWhile is_space (rev (dropWhile is_space s)))"

text \<open>\<^verbatim>\<open>replace(/[^\w\s-]/g, "")\<close> deletes every code unit outside the class.\<close>

definition is_kept :: "16 word \<Rightarrow> bool" where
  "is_kept c \<longleftrightarrow> is_word c \<or> is_space c \<or> c = hyphen"

definition strip_symbols :: "jsstring \<Rightarrow> jsstring" where
  "strip_symbols s = filter is_kept s"

text \<open>
  \<^verbatim>\<open>replace(/[\s_-]+/g, "-")\<close> puts one hyphen for each longest run of white
  space, underscores and hyphens: the match is greedy and the search goes on behind it.
\<close>

definition is_separator :: "16 word \<Rightarrow> bool" where
  "is_separator c \<longleftrightarrow> is_space c \<or> unat c = 0x5F \<or> c = hyphen"

function collapse :: "jsstring \<Rightarrow> jsstring" where
  "collapse [] = []"
| "collapse (c # cs) =
     (if is_separator c then hyphen # collapse (dropWhile is_separator cs)
      else c # collapse cs)"
  by pat_completeness auto
termination
  by (relation "measure length") (auto simp: le_imp_less_Suc length_dropWhile_le)

text \<open>
  \<^verbatim>\<open>replace(/^-+|-+$/g, "")\<close> deletes the hyphens the string starts with and the
  hyphens it ends with.
\<close>

definition is_hyphen :: "16 word \<Rightarrow> bool" where
  "is_hyphen c \<longleftrightarrow> c = hyphen"

definition trim_hyphens :: "jsstring \<Rightarrow> jsstring" where
  "trim_hyphens s = rev (dropWhile is_hyphen (rev (dropWhile is_hyphen s)))"

text \<open>
  \<^verbatim>\<open>String.prototype.toLowerCase\<close> is the runtime's: it follows the case tables of
  Unicode, which are no part of the module. It is the first parameter of \<open>slugify\<close>.
\<close>

definition slugify :: "(jsstring \<Rightarrow> jsstring) \<Rightarrow> jsstring \<Rightarrow> jsstring" where
  "slugify toLowerCase s = trim_hyphens (collapse (strip_symbols (trim (toLowerCase s))))"

text \<open>
  The shape of a slug: every code unit is a hyphen or a small ASCII letter or a digit,
  and no hyphen follows a hyphen.
\<close>

definition is_slug_char :: "16 word \<Rightarrow> bool" where
  "is_slug_char c \<longleftrightarrow> c = hyphen \<or> (is_word c \<and> \<not> is_upper c \<and> \<not> is_separator c)"

fun no_double :: "jsstring \<Rightarrow> bool" where
  "no_double (a # b # cs) = (\<not> (a = hyphen \<and> b = hyphen) \<and> no_double (b # cs))"
| "no_double cs = True"


section \<open>Sample inputs\<close>

text \<open>
  A locale table in which the default locale is complete and French is partial, a
  request that selects a locale by its query, a response object as the framework hands
  it out (it has no \<^verbatim>\<open>query\<close>), two configurations, a transport whose first two
  POSTs are rejected, and the lowering of the ASCII capitals, which is what
  \<^verbatim>\<open>toLowerCase\<close> does to a string of ASCII characters.
\<close>

definition sample_table :: locale_table where
  "sample_table =
     [(js ''eng'', [(js ''missing_parameters'', js ''Missing parameters''),
                    (js ''not_found'', js ''Not found''),
                    (js ''successfull_operation'', js ''Successfull operation''),
                    (js ''422_error'', js ''Unprocessable content'')]),
      (js ''fra'', [(js ''missing_parameters'', js ''Parametres manquants'')])]"

definition query_request :: "jsval \<Rightarrow> jsval" where
  "query_request l = JObj [(js ''query'', JObj [(js ''lang'', l)])]"

definition plain_response :: response where
  "plain_response = \<lparr>statusCode = 200, bodies = [], props = []\<rparr>"

definition env_on :: env where
  "env_on = \<lparr>ALLOW_NOTIF = Some (js ''true''), ALLOW_LOG_NOTIF = None,
              ERROR_HOOK = Some (js ''https://hooks.example/error''), LOG_HOOK = None,
              NODE_ENV = Some (js ''production'')\<rparr>"

definition env_off :: env where
  "env_off = \<lparr>ALLOW_NOTIF = Some (js ''false''), ALLOW_LOG_NOTIF = None,
               ERROR_HOOK = Some (js ''https://hooks.example/error''), LOG_HOOK = None,
               NODE_ENV = Some (js ''production'')\<rparr>"

definition rejects_twice :: "nat \<Rightarrow> settlement" where
  "rejects_twice n =
     (if n < 2 then Rejected (js ''AxiosError'') (js ''connect ECONNREFUSED'') else Resolved)"

definition noon :: "nat \<Rightarrow> jsstring" where
  "noon n = js ''01/01/2024'' @ [0x09] @ js ''12:00:00''"

definition ascii_lower :: "jsstring \<Rightarrow> jsstring" where
  "ascii_lower s = map (\<lambda>c. if is_upper c then c + 0x20 else c) s"


section \<open>Properties of strings\<close>

lemma unat_of_char: "unat (of_char c :: 16 word) = of_char c"
proof -
  have "(of_char c :: 16 word) = of_nat (of_char c)"
    by (simp add: of_nat_of_char)
  then have "unat (of_char c :: 16 word) = (of_char c :: nat) mod 2 ^ LENGTH(16)"
    by (simp only: unat_of_nat)
  moreover have "(of_char c :: nat) < 2 ^ LENGTH(16)"
    by (rule less_trans [OF nat_of_char_less_256]) simp
  ultimately show ?thesis
    by (simp only: mod_less)
qed

lemma of_char_inject: "(of_char c :: 16 word) = of_char d \<longleftrightarrow> c = d"
proof
  assume "(of_char c :: 16 word) = of_char d"
  then have "unat (of_char c :: 16 word) = unat (of_char d :: 16 word)"
    by simp
  then show "c = d"
    by (simp add: unat_of_char)
qed simp

lemma js_inject [simp]: "js a = js b \<longleftrightarrow> a = b"
proof -
  have "inj (of_char :: char \<Rightarrow> 16 word)"
    by (rule injI) (simp add: of_char_inject)
  then show ?thesis
    by (simp add: js_def inj_map_eq_map)
qed

lemma js_eq_Nil [simp]: "js s = [] \<longleftrightarrow> s = []" "[] = js s \<longleftrightarrow> s = []"
  by (auto simp: js_def)


section \<open>Properties of the translator\<close>

lemma member_of_samples:
  "member_of (js ''not_found'') = None"
  "member_of (js ''missing_parameters'') = None"
  "member_of (js ''successfull_operation'') = None"
  "member_of (js ''422_error'') = None"
  "member_of (js ''eng'') = None"
  "member_of (js ''fra'') = None"
  "member_of (js ''deu'') = None"
  "member_of (js ''constructor'') = Some Constructor"
  by (simp_all add: member_of_def members_def)


lemma sample_entries:
  "entry sample_table (js ''eng'') (js ''missing_parameters'')
     = Inr (Data (JStr (js ''Missing parameters'')))"
  "entry sample_table (js ''eng'') (js ''not_found'') = Inr (Data (JStr (js ''Not found'')))"
  "entry sample_table (js ''eng'') (js ''successfull_operation'')
     = Inr (Data (JStr (js ''Successfull operation'')))"
  "entry sample_table (js ''eng'') (js ''422_error'')
     = Inr (Data (JStr (js ''Unprocessable content'')))"
  "entry sample_table (js ''fra'') (js ''missing_parameters'')
     = Inr (Data (JStr (js ''Parametres manquants'')))"
  "entry sample_table (js ''fra'') (js ''not_found'') = Inr (Data JUndefined)"
  "entry sample_table (js ''deu'') (js ''not_found'') = Inl TypeError"
  by (simp_all add: entry_def slot_def sample_table_def member_of_samples)

lemma sample_languages:
  "handleLanguage (query_request (JStr (js ''deu''))) = Inr (JStr (js ''deu''))"
  "handleLanguage (query_request (JStr (js ''fra''))) = Inr (JStr (js ''fra''))"
  "handleLanguage (query_request (JStr (js ''eng''))) = Inr (JStr (js ''eng''))"
  "handleLanguage (query_request (JStr (js ''constructor''))) = Inr (JStr (js ''constructor''))"
  by (simp_all add: handleLanguage_def query_request_def)

lemma sample_translations:
  "translate sample_table (query_request (JStr (js ''fra''))) (js ''missing_parameters'')
     = Inr (Data (JStr (js ''Parametres manquants'')))"
  "translate sample_table (query_request (JStr (js ''eng''))) (js ''missing_parameters'')
     = Inr (Data (JStr (js ''Missing parameters'')))"
  "translate sample_table (query_request (JStr (js ''eng''))) (js ''not_found'')
     = Inr (Data (JStr (js ''Not found'')))"
  "translate sample_table (query_request (JStr (js ''eng''))) (js ''successfull_operation'')
     = Inr (Data (JStr (js ''Successfull operation'')))"
  by (simp_all add: translate_def sample_languages sample_entries)


lemma entry_of_own:
  assumes "slot lang a = Own es"
  shows "\<exists>v. entry lang a b = Inr v"
  using assms by (simp add: entry_def)


text \<open>
  For a request with a query object and a table with an \<^verbatim>\<open>eng\<close> object, nothing
  is raised: \<open>handleLanguage\<close> and \<open>translate\<close> return.
\<close>

lemma handleLanguage_returns:
  assumes "request_query request = Inr (JObj q)"
  shows "\<exists>l. handleLanguage request = Inr l"
  using assms by (simp add: handleLanguage_def)

lemma translate_returns:
  assumes "request_query request = Inr (JObj q)" and "slot lang (js ''eng'') = Own eng"
  shows "\<exists>v. translate lang request key = Inr v"
proof -
  from assms(1) obtain l where "handleLanguage request = Inr l"
    using handleLanguage_returns by blast
  moreover from assms(2) have "\<exists>v. entry lang (js ''eng'') key = Inr v"
    by (rule entry_of_own)
  ultimately show ?thesis
    by (auto simp: translate_def split: sum.splits)
qed

text \<open>A request without a query makes \<open>translate\<close> raise, whatever the table.\<close>

lemma translate_without_query:
  assumes "map_of kvs (js ''query'') = None"
  shows "translate lang (JObj kvs) message = Inl TypeError"
  using assms by (simp add: translate_def handleLanguage_def)








section \<open>Properties of the response formatter\<close>

lemma custom_shape:
  "custom res c s d m =
     res\<lparr>statusCode := c,
         bodies := bodies res @
           [Json (Obj [(js ''success'', Val (Data s)), (js ''data'', Val (Data d)),
                       (js ''message'', Val m)])]\<rparr>"
  by (simp add: custom_def json_def status_def envelope_def)

lemma sample_translations_rev1:
  "translate_rev1 sample_table (query_request (JStr (js ''eng''))) (js ''missing_parameters'')
     = Inr (Data (JStr (js ''Missing parameters'')))"
  "translate_rev1 sample_table (query_request (JStr (js ''eng''))) (js ''successfull_operation'')
     = Inr (Data (JStr (js ''Successfull operation'')))"
  "translate_rev1 sample_table (query_request (JStr (js ''eng''))) (js ''422_error'')
     = Inr (Data (JStr (js ''Unprocessable content'')))"
  by (simp_all add: translate_rev1_def handleLanguage_rev1_def query_request_def sample_entries)

lemma translate_of_empty_request:
  "translate lang (JObj []) message = Inl TypeError"
  by (simp add: translate_without_query)

text \<open>
  When the translation raises, as it does in the second revision for a request without
  a query, the operation raises the same and writes nothing.
\<close>

lemma formatter_raises:
  assumes "translate lang req key = Inl e"
  shows "key = js ''missing_parameters'' \<Longrightarrow> badResquest lang req res = (Some e, res)"
    and "key = js ''not_found'' \<Longrightarrow> notFound lang req res = (Some e, res)"
    and "key = js ''successfull_operation'' \<Longrightarrow> success lang req res = (Some e, res)"
  using assms by (simp_all add: badResquest_def notFound_def success_def)

text \<open>
  Claim C6, as the code has it. In the second revision, when translating the key
  \<^verbatim>\<open>missing_parameters\<close> for the request returns the message \<open>m\<close>,
  \<open>badResquest\<close> raises nothing, sets the status 400 and writes one JSON body, the
  envelope with success false, data null and message \<open>m\<close>. In the first revision
  the status is 400 as well, and the body is sent as an object with a list of errors,
  whose one element has the message and the location \<^verbatim>\<open>params\<close>.
\<close>

theorem badResquest_envelope:
  "(translate lang req (js ''missing_parameters'') = Inr m \<longrightarrow>
      badResquest lang req res =
        (None, res\<lparr>statusCode := 400,
                   bodies := bodies res @
                     [Json (Obj [(js ''success'', Val (Data (JBool False))),
                                 (js ''data'', Val (Data JNull)),
                                 (js ''message'', Val m)])]\<rparr>)) \<and>
   (translate_rev1 lang req (js ''missing_parameters'') = Inr m \<longrightarrow>
      badResquest_rev1 lang req res =
        (None, res\<lparr>statusCode := 400,
                   bodies := bodies res @
                     [Sent (Obj [(js ''errors'',
                        Arr [Obj [(js ''msg'', Val m),
                                  (js ''location'', Val (Data (JStr (js ''params''))))]])])]\<rparr>))"
  by (simp add: badResquest_def badResquest_rev1_def custom_shape status_def send_def)

theorem badResquest_envelope_witness:
  "badResquest sample_table (query_request (JStr (js ''fra''))) plain_response =
     (None, \<lparr>statusCode = 400,
             bodies = [Json (Obj [(js ''success'', Val (Data (JBool False))),
                                  (js ''data'', Val (Data JNull)),
                                  (js ''message'',
                                   Val (Data (JStr (js ''Parametres manquants''))))])],
             props = []\<rparr>) \<and>
   badResquest_rev1 sample_table (query_request (JStr (js ''eng''))) plain_response =
     (None, \<lparr>statusCode = 400,
             bodies = [Sent (Obj [(js ''errors'',
                         Arr [Obj [(js ''msg'', Val (Data (JStr (js ''Missing parameters'')))),
                                   (js ''location'', Val (Data (JStr (js ''params''))))]])])],
             props = []\<rparr>)"
  using badResquest_envelope [of sample_table "query_request (JStr (js ''fra''))"
      "Data (JStr (js ''Parametres manquants''))" plain_response]
    badResquest_envelope [of sample_table "query_request (JStr (js ''eng''))"
      "Data (JStr (js ''Missing parameters''))" plain_response]
  by (simp add: sample_translations sample_translations_rev1 plain_response_def)

text \<open>
  Claim C6 as stated fails for a request without a query, for which the second
  revision raises and writes nothing, and on the first revision, whose body is no
  envelope.
\<close>

theorem badResquest_counterexample:
  "badResquest sample_table (JObj []) plain_response = (Some TypeError, plain_response) \<and>
   bodies plain_response = [] \<and>
   statusCode plain_response \<noteq> 400 \<and>
   badResquest_rev1 sample_table (query_request (JStr (js ''eng''))) plain_response =
     (None, \<lparr>statusCode = 400,
             bodies = [Sent (Obj [(js ''errors'',
                         Arr [Obj [(js ''msg'', Val (Data (JStr (js ''Missing parameters'')))),
                                   (js ''location'', Val (Data (JStr (js ''params''))))]])])],
             props = []\<rparr>)"
  by (simp add: badResquest_def badResquest_rev1_def translate_of_empty_request
      sample_translations_rev1 plain_response_def status_def send_def)




lemma unprocessable_content_without_query:
  assumes "map_of (props res) (js ''query'') = None"
  shows "unprocessable_content lang req res = (Some TypeError, res\<lparr>statusCode := 422\<rparr>)"
  using assms
  by (simp add: unprocessable_content_def as_object_def status_def translate_without_query)

text \<open>
  The first revision translates for the request, and does not raise where the second
  does; its \<open>translate\<close> raises only when the table has no \<^verbatim>\<open>eng\<close> entry to
  fall back on.
\<close>

lemma translate_rev1_returns:
  assumes "slot lang (js ''eng'') = Own eng"
  shows "\<exists>v. translate_rev1 lang request key = Inr v"
proof -
  from assms have "\<exists>v. entry lang (js ''eng'') key = Inr v"
    by (rule entry_of_own)
  then show ?thesis
    by (auto simp: translate_rev1_def split: sum.splits)
qed

lemma unprocessable_content_rev1_sample:
  "unprocessable_content_rev1 sample_table (query_request (JStr (js ''eng''))) plain_response =
     (None, \<lparr>statusCode = 422,
             bodies = [Sent (Val (Data (JStr (js ''Unprocessable content''))))],
             props = []\<rparr>)"
  by (simp add: unprocessable_content_rev1_def sample_translations_rev1 plain_response_def
      status_def send_def)

text \<open>
  Claim C10. The outcome of \<open>unprocessable_content\<close> is the same for any two requests:
  the message is translated for the response object, whose properties alone decide the
  locale, and so whether a body is written at all.
\<close>

theorem unprocessable_content_ignores_request:
  "unprocessable_content lang req res = unprocessable_content lang req' res \<and>
   unprocessable_content lang req res =
     (case translate lang (JObj (props res)) (js ''422_error'') of
        Inl e \<Rightarrow> (Some e, res\<lparr>statusCode := 422\<rparr>)
      | Inr m \<Rightarrow> (None, res\<lparr>statusCode := 422, bodies := bodies res @ [Sent (Val m)]\<rparr>))"
  by (simp add: unprocessable_content_def as_object_def status_def send_def
      split: sum.splits)

text \<open>
  Claim C5, at an input where the code departs from it: for a response object as the
  framework hands it out, \<open>unprocessable_content\<close> raises a type error after setting
  the status, and writes no body.
\<close>

theorem unprocessable_content_raises:
  "unprocessable_content sample_table (query_request (JStr (js ''fra''))) plain_response =
     (Some TypeError, \<lparr>statusCode = 422, bodies = [], props = []\<rparr>)"
  by (simp add: unprocessable_content_without_query plain_response_def)


section \<open>Properties of the notifier\<close>

text \<open>
  Claim C8. When \<^verbatim>\<open>ALLOW_NOTIF\<close> is not the string \<^verbatim>\<open>true\<close>, \<open>custom_notify\<close>
  issues no POST, whatever the hook and the content: the list of POSTs is as it was,
  and a run from the idle world ends there with none.
\<close>

theorem custom_notify_disabled:
  assumes "ALLOW_NOTIF env \<noteq> Some (js ''true'')"
  shows "posts (snd (custom_notify env hook content w)) = posts w \<and>
         notify_run env transport clock hook content = Some idle \<and> posts idle = []"
  using assms by (simp add: custom_notify_def notify_run_def event_loop.simps idle_def)

theorem custom_notify_disabled_witness:
  "ALLOW_NOTIF env_off \<noteq> Some (js ''true'') \<and>
   notify_run env_off rejects_twice noon (JStr (js ''https://hooks.example/log''))
     (JStr (js ''hello''))
     = Some \<lparr>posts = [], delivered = 0\<rparr>"
proof -
  have off: "ALLOW_NOTIF env_off \<noteq> Some (js ''true'')"
    by (simp add: env_off_def)
  show ?thesis
    using off custom_notify_disabled [OF off, of "JStr (js ''https://hooks.example/log'')"
        "JStr (js ''hello'')" idle rejects_twice noon]
    by (simp add: idle_def)
qed

lemma to_string_env_value: "\<exists>s. to_string (env_value x) = Inr s"
  by (cases x) (simp_all add: env_value_def)

text \<open>
  Claim C4, as the code has it. For an error whose conversion to a string does not
  raise, \<open>error\<close> answers with status 500 and the envelope carrying the error, from
  any world and for any transport: the promise it awaits is fulfilled before any POST
  settles, so the response does not wait for the notification, be it rejected or never
  settled.
\<close>

theorem error_emits_500:
  assumes "to_string err = Inr s"
  shows "fst (error env clock res err w) =
           Fulfilled (res\<lparr>statusCode := 500,
                          bodies := bodies res @
                            [Json (Obj [(js ''success'', Val (Data (JBool False))),
                                        (js ''data'', Val (Data JNull)),
                                        (js ''message'', Val (Data err))])]\<rparr>) \<and>
         fst (error_run env transport clock res err) =
           Fulfilled (res\<lparr>statusCode := 500,
                          bodies := bodies res @
                            [Json (Obj [(js ''success'', Val (Data (JBool False))),
                                        (js ''data'', Val (Data JNull)),
                                        (js ''message'', Val (Data err))])]\<rparr>)"
proof -
  obtain n where "to_string (env_value (NODE_ENV env)) = Inr n"
    using to_string_env_value by blast
  with assms show ?thesis
    by (simp add: error_def error_run_def error_notification_def custom_notify_def
        custom_shape split: prod.splits)
qed

theorem error_emits_500_witness:
  "to_string (JError (js ''Error'') (js ''boom'')) = Inr (js ''Error: boom'') \<and>
   fst (error_run env_on rejects_twice noon plain_response (JError (js ''Error'') (js ''boom''))) =
     Fulfilled \<lparr>statusCode = 500,
                bodies = [Json (Obj [(js ''success'', Val (Data (JBool False))),
                                     (js ''data'', Val (Data JNull)),
                                     (js ''message'',
                                      Val (Data (JError (js ''Error'') (js ''boom''))))])],
                props = []\<rparr>"
proof -
  have s: "to_string (JError (js ''Error'') (js ''boom'')) = Inr (js ''Error: boom'')"
    by (simp add: error_string_def) (simp add: js_def)
  show ?thesis
    using s error_emits_500 [OF s, of env_on noon plain_response idle rejects_twice]
    by (simp add: plain_response_def)
qed

text \<open>
  Claim C4 as stated fails for an error whose conversion to a string raises, such as
  an object with an own \<^verbatim>\<open>toString\<close> that is no function: the template literal
  of the message raises before anything is posted or written, and the promise of
  \<open>error\<close> fails.
\<close>

theorem error_conversion_counterexample:
  "to_string (JObj [(js ''toString'', JNull)]) = Inl TypeError \<and>
   error env_on noon plain_response (JObj [(js ''toString'', JNull)]) idle
     = (Failed TypeError, idle) \<and>
   error_run env_on rejects_twice noon plain_response (JObj [(js ''toString'', JNull)])
     = (Failed TypeError, Some idle)"
  by (simp add: error_def error_run_def env_on_def env_value_def event_loop.simps idle_def)

lemma deliver_rejected:
  assumes "ALLOW_NOTIF env = Some (js ''true'')"
    and "transport (delivered w) = Rejected name message"
  shows "delivered (deliver env transport clock w) = Suc (delivered w) \<and>
         map fst (posts (deliver env transport clock w)) =
           map fst (posts w) @ [env_value (ERROR_HOOK env)]"
  using assms
  by (simp add: deliver_def on_rejected_def error_notification_def custom_notify_def)

lemma deliver_settled:
  assumes "\<not> is_rejected (transport (delivered w))"
  shows "deliver env transport clock w = w\<lparr>delivered := Suc (delivered w)\<rparr>"
  using assms by (cases "transport (delivered w)") (simp_all add: deliver_def)

lemma event_loop_chain:
  assumes allow: "ALLOW_NOTIF env = Some (js ''true'')"
  shows "length (posts w) = Suc (delivered w) \<Longrightarrow>
         (\<forall>i<k. is_rejected (transport (delivered w + i))) \<Longrightarrow>
         \<not> is_rejected (transport (delivered w + k)) \<Longrightarrow>
         \<exists>w'. event_loop env transport clock w = Some w' \<and>
              map fst (posts w') = map fst (posts w) @ replicate k (env_value (ERROR_HOOK env)) \<and>
              delivered w' = length (posts w')"
proof (induction k arbitrary: w)
  case 0
  then have d: "deliver env transport clock w = w\<lparr>delivered := Suc (delivered w)\<rparr>"
    by (simp add: deliver_settled)
  have "event_loop env transport clock w = event_loop env transport clock (deliver env transport clock w)"
    using 0 by (subst event_loop.simps) simp
  also have "\<dots> = Some (w\<lparr>delivered := Suc (delivered w)\<rparr>)"
    using 0 by (subst event_loop.simps) (simp add: d)
  finally show ?case using 0 by simp
next
  case (Suc k)
  from Suc.prems(2) have "is_rejected (transport (delivered w + 0))" by blast
  then obtain name message where r: "transport (delivered w) = Rejected name message"
    by (cases "transport (delivered w)") simp_all
  let ?w = "deliver env transport clock w"
  have d: "delivered ?w = Suc (delivered w)"
    and p: "map fst (posts ?w) = map fst (posts w) @ [env_value (ERROR_HOOK env)]"
    using deliver_rejected [of env transport w name message clock, OF allow r] by simp_all
  from p have "length (map fst (posts ?w)) = Suc (length (posts w))" by simp
  then have len: "length (posts ?w) = Suc (delivered ?w)"
    using Suc.prems(1) d by simp
  have rej: "\<forall>i<k. is_rejected (transport (delivered ?w + i))"
  proof (intro allI impI)
    fix i assume "i < k"
    then have "Suc i < Suc k" by simp
    with Suc.prems(2) have "is_rejected (transport (delivered w + Suc i))" by blast
    then show "is_rejected (transport (delivered ?w + i))" by (simp add: d)
  qed
  have last: "\<not> is_rejected (transport (delivered ?w + k))"
    using Suc.prems(3) by (simp add: d)
  from Suc.IH [OF len rej last] obtain w' where
    w': "event_loop env transport clock ?w = Some w'"
      "map fst (posts w') = map fst (posts ?w) @ replicate k (env_value (ERROR_HOOK env))"
      "delivered w' = length (posts w')"
    by blast
  have "event_loop env transport clock w = event_loop env transport clock ?w"
    using Suc.prems(1) by (subst event_loop.simps) simp
  with w' p show ?case by (simp add: replicate_app_Cons_same)
qed

lemma event_loop_busy:
  assumes run: "event_loop env transport clock w = Some w'"
  shows "ALLOW_NOTIF env = Some (js ''true'') \<longrightarrow> (\<forall>n. is_rejected (transport n)) \<longrightarrow>
         length (posts w) \<le> delivered w"
proof (rule event_loop.raw_induct
    [where P = "\<lambda>env transport clock w y. ALLOW_NOTIF env = Some (js ''true'') \<longrightarrow>
       (\<forall>n. is_rejected (transport n)) \<longrightarrow> length (posts w) \<le> delivered w", OF _ run])
  fix loop :: "env \<Rightarrow> (nat \<Rightarrow> settlement) \<Rightarrow> (nat \<Rightarrow> jsstring) \<Rightarrow> world \<Rightarrow> world option"
  fix env transport clock w y
  assume IH: "\<And>env transport clock w y. loop env transport clock w = Some y \<Longrightarrow>
      ALLOW_NOTIF env = Some (js ''true'') \<longrightarrow> (\<forall>n. is_rejected (transport n)) \<longrightarrow>
      length (posts w) \<le> delivered w"
    and step: "(if delivered w < length (posts w)
                then loop env transport clock (deliver env transport clock w)
                else Some w) = Some y"
  show "ALLOW_NOTIF env = Some (js ''true'') \<longrightarrow> (\<forall>n. is_rejected (transport n)) \<longrightarrow>
        length (posts w) \<le> delivered w"
  proof (intro impI)
    assume allow: "ALLOW_NOTIF env = Some (js ''true'')"
      and rej: "\<forall>n. is_rejected (transport n)"
    show "length (posts w) \<le> delivered w"
    proof (rule ccontr)
      assume "\<not> length (posts w) \<le> delivered w"
      then have lt: "delivered w < length (posts w)" by simp
      let ?w = "deliver env transport clock w"
      from step lt have "loop env transport clock ?w = Some y" by simp
      from IH [OF this] allow rej have le: "length (posts ?w) \<le> delivered ?w" by simp
      from rej have "is_rejected (transport (delivered w))" by blast
      then obtain name message where r: "transport (delivered w) = Rejected name message"
        by (cases "transport (delivered w)") simp_all
      have d: "delivered ?w = Suc (delivered w)"
        and p: "map fst (posts ?w) = map fst (posts w) @ [env_value (ERROR_HOOK env)]"
        using deliver_rejected [of env transport w name message clock, OF allow r] by simp_all
      from p have "length (map fst (posts ?w)) = Suc (length (posts w))" by simp
      then have "length (posts ?w) = Suc (length (posts w))" by simp
      with d le lt show False by simp
    qed
  qed
qed

text \<open>
  Claim C2, as the code has it. With notifications enabled, the caller of
  \<open>custom_notify\<close> gets a fulfilled promise. Each rejected POST makes the handler
  issue one more POST, to the error hook, and this one is handled the same way: when
  the first \<open>k\<close> POSTs are rejected and the next is not, the run ends after
  \<open>k + 1\<close> POSTs, the first to the given hook and \<open>k\<close> to the error hook.
\<close>

theorem custom_notify_rejections:
  assumes "ALLOW_NOTIF env = Some (js ''true'')"
    and "\<forall>i<k. is_rejected (transport i)"
    and "\<not> is_rejected (transport k)"
  shows "fst (custom_notify env hook content idle) = Fulfilled () \<and>
         (\<exists>w. notify_run env transport clock hook content = Some w \<and>
              map fst (posts w) = hook # replicate k (env_value (ERROR_HOOK env)) \<and>
              delivered w = Suc k)"
proof -
  let ?w = "snd (custom_notify env hook content idle)"
  have w: "?w = \<lparr>posts = [(hook, content)], delivered = 0\<rparr>"
    using assms(1) by (simp add: custom_notify_def idle_def)
  have "\<exists>w'. event_loop env transport clock ?w = Some w' \<and>
          map fst (posts w') = map fst (posts ?w) @ replicate k (env_value (ERROR_HOOK env)) \<and>
          delivered w' = length (posts w')"
    using assms by (intro event_loop_chain) (simp_all add: w)
  then obtain w' where w': "event_loop env transport clock ?w = Some w'"
    "map fst (posts w') = map fst (posts ?w) @ replicate k (env_value (ERROR_HOOK env))"
    "delivered w' = length (posts w')"
    by blast
  from w'(2) have "length (map fst (posts w')) = Suc k" by (simp add: w)
  then have "delivered w' = Suc k" using w'(3) by simp
  moreover have "fst (custom_notify env hook content idle) = Fulfilled ()"
    by (simp add: custom_notify_def)
  ultimately show ?thesis
    using w' by (simp add: notify_run_def w)
qed

theorem custom_notify_rejections_witness:
  "\<exists>w. notify_run env_on rejects_twice noon (JStr (js ''https://hooks.example/log''))
          (JStr (js ''hello''))
         = Some w \<and>
       map fst (posts w) = [JStr (js ''https://hooks.example/log''),
                            JStr (js ''https://hooks.example/error''),
                            JStr (js ''https://hooks.example/error'')] \<and>
       delivered w = 3"
  using custom_notify_rejections [of env_on 2 rejects_twice
      "JStr (js ''https://hooks.example/log'')" "JStr (js ''hello'')" noon]
  by (simp add: env_on_def rejects_twice_def env_value_def numeral_2_eq_2 numeral_3_eq_3)

text \<open>
  Claim C2 as stated fails when the secondary attempt is rejected too: it is followed by
  a third POST, so that two error notifications are attempted, not one.
\<close>

theorem secondary_failure_retried:
  "map_option (\<lambda>w. map fst (posts w))
     (notify_run env_on rejects_twice noon (JStr (js ''https://hooks.example/log''))
        (JStr (js ''hello'')))
   = Some [JStr (js ''https://hooks.example/log''), JStr (js ''https://hooks.example/error''),
           JStr (js ''https://hooks.example/error'')] \<and>
   map_option (\<lambda>w. length (posts w))
     (notify_run env_on rejects_twice noon (JStr (js ''https://hooks.example/log''))
        (JStr (js ''hello'')))
   \<noteq> Some 2"
  by (simp add: notify_run_def custom_notify_def idle_def env_on_def rejects_twice_def
      event_loop.simps deliver_def on_rejected_def error_notification_def env_value_def)

text \<open>While every POST is rejected the attempts never end.\<close>

lemma notify_run_never_quiet:
  assumes "ALLOW_NOTIF env = Some (js ''true'')" and "\<forall>n. is_rejected (transport n)"
  shows "notify_run env transport clock hook content = None"
proof (rule ccontr)
  assume "notify_run env transport clock hook content \<noteq> None"
  then obtain w' where
    "event_loop env transport clock (snd (custom_notify env hook content idle)) = Some w'"
    by (auto simp: notify_run_def)
  from event_loop_busy [OF this] assms
  show False by (simp add: custom_notify_def idle_def)
qed



section \<open>Properties of slugify\<close>

lemma hyphen_facts:
  "is_separator hyphen" "is_kept hyphen" "\<not> is_space hyphen" "\<not> is_upper hyphen"
  by (simp_all add: is_separator_def is_kept_def is_space_def is_upper_def hyphen_def)

lemma slug_char_facts:
  assumes "is_slug_char c"
  shows "\<not> is_space c" and "is_kept c" and "\<not> is_upper c"
    and "is_separator c \<longleftrightarrow> c = hyphen"
proof -
  show "\<not> is_space c"
    using assms by (auto simp: is_slug_char_def hyphen_facts is_separator_def)
  show "is_kept c"
    using assms by (auto simp: is_slug_char_def is_kept_def)
  show "\<not> is_upper c"
    using assms by (auto simp: is_slug_char_def hyphen_facts)
  show "is_separator c \<longleftrightarrow> c = hyphen"
    using assms by (auto simp: is_slug_char_def hyphen_facts)
qed

lemma trim_both_idem:
  "rev (dropWhile P (rev (dropWhile P (rev (dropWhile P (rev (dropWhile P s)))))))
     = rev (dropWhile P (rev (dropWhile P s)))"
proof -
  let ?a = "dropWhile P s"
  let ?b = "dropWhile P (rev ?a)"
  have b: "dropWhile P ?b = ?b" by simp
  have "rev ?b = take (length ?a - length (takeWhile P (rev ?a))) ?a"
    by (simp add: dropWhile_eq_drop [of P "rev ?a"] rev_drop)
  then obtain m where m: "rev ?b = take m ?a" by blast
  have "dropWhile P (rev ?b) = rev ?b"
  proof (cases "rev ?b = []")
    case True
    then show ?thesis by (simp only: dropWhile.simps)
  next
    case False
    with m have "?a \<noteq> []" and "0 < m" by (auto intro: Suc_lessI)
    then have "hd (rev ?b) = hd ?a" using m by (simp add: hd_take)
    moreover have "\<not> P (hd ?a)" using \<open>?a \<noteq> []\<close> by (rule hd_dropWhile)
    ultimately show ?thesis using False by (simp add: dropWhile_eq_self_iff)
  qed
  then show ?thesis by (simp add: b)
qed

lemma trim_both_none:
  assumes "\<forall>c\<in>set s. \<not> P c"
  shows "rev (dropWhile P (rev (dropWhile P s))) = s"
proof -
  have none: "dropWhile P xs = xs" if "\<forall>c\<in>set xs. \<not> P c" for xs
    using that by (cases xs) simp_all
  from assms have "\<forall>c\<in>set (rev s). \<not> P c" by simp
  then have "dropWhile P (rev s) = rev s" by (rule none)
  with none [OF assms] show ?thesis by simp
qed

lemma trim_both_take_drop:
  "\<exists>m n. rev (dropWhile P (rev (dropWhile P s))) = take m (drop n s)"
proof -
  let ?a = "dropWhile P s"
  have "rev (dropWhile P (rev ?a)) = take (length ?a - length (takeWhile P (rev ?a))) ?a"
    by (simp add: dropWhile_eq_drop [of P "rev ?a"] rev_drop)
  moreover have "?a = drop (length (takeWhile P s)) s"
    by (rule dropWhile_eq_drop)
  ultimately show ?thesis by metis
qed

lemma set_trim_both:
  assumes "c \<in> set (rev (dropWhile P (rev (dropWhile P s))))"
  shows "c \<in> set s"
proof -
  from assms have "c \<in> set (dropWhile P (rev (dropWhile P s)))" by simp
  then have "c \<in> set (rev (dropWhile P s))" by (rule set_dropWhileD)
  then have "c \<in> set (dropWhile P s)" by simp
  then show "c \<in> set s" by (rule set_dropWhileD)
qed

lemma set_collapse:
  "set (collapse s) \<subseteq> insert hyphen {c \<in> set s. \<not> is_separator c}"
proof (induction s rule: collapse.induct)
  case 1
  show ?case by simp
next
  case (2 c cs)
  show ?case
  proof (cases "is_separator c")
    case True
    with 2 have "set (collapse (dropWhile is_separator cs))
        \<subseteq> insert hyphen {c \<in> set (dropWhile is_separator cs). \<not> is_separator c}"
      by simp
    with True show ?thesis
      by (auto dest: set_dropWhileD)
  next
    case False
    with 2 show ?thesis by auto
  qed
qed

lemma collapse_head:
  assumes "s = [] \<or> \<not> is_separator (hd s)"
  shows "collapse s = [] \<or> hd (collapse s) \<noteq> hyphen"
  using assms by (cases s) (auto simp: hyphen_facts)

lemma no_double_Cons:
  "no_double (a # s) \<longleftrightarrow> (a = hyphen \<longrightarrow> s = [] \<or> hd s \<noteq> hyphen) \<and> no_double s"
  by (cases s) auto

lemma no_double_collapse: "no_double (collapse s)"
proof (induction s rule: collapse.induct)
  case 1
  show ?case by simp
next
  case (2 c cs)
  show ?case
  proof (cases "is_separator c")
    case True
    let ?r = "dropWhile is_separator cs"
    have "?r = [] \<or> \<not> is_separator (hd ?r)"
      using hd_dropWhile [of is_separator cs] by blast
    then have "collapse ?r = [] \<or> hd (collapse ?r) \<noteq> hyphen"
      by (rule collapse_head)
    with True 2 show ?thesis
      by (simp add: no_double_Cons)
  next
    case False
    then have "c \<noteq> hyphen" using hyphen_facts(1) by auto
    with False 2 show ?thesis
      by (simp add: no_double_Cons)
  qed
qed

lemma no_double_drop: "no_double s \<Longrightarrow> no_double (drop n s)"
proof (induction n arbitrary: s)
  case 0
  then show ?case by simp
next
  case (Suc n)
  then show ?case by (cases s) (simp_all add: no_double_Cons)
qed

lemma no_double_take: "no_double s \<Longrightarrow> no_double (take n s)"
proof (induction s arbitrary: n)
  case Nil
  then show ?case by simp
next
  case (Cons a s)
  show ?case
  proof (cases n)
    case 0
    then show ?thesis by simp
  next
    case (Suc k)
    have "take k s = [] \<or> hd (take k s) = hd s"
      by (cases k; cases s) simp_all
    moreover have "take k s \<noteq> [] \<longrightarrow> s \<noteq> []" by auto
    ultimately show ?thesis
      using Cons Suc by (auto simp: no_double_Cons)
  qed
qed

lemma collapse_fixed:
  assumes "\<forall>c\<in>set s. is_slug_char c" and "no_double s"
  shows "collapse s = s"
  using assms
proof (induction s)
  case Nil
  show ?case by simp
next
  case (Cons c cs)
  then have IH: "collapse cs = cs" by (simp add: no_double_Cons)
  show ?case
  proof (cases "is_separator c")
    case False
    with IH show ?thesis by simp
  next
    case True
    with Cons.prems(1) have c: "c = hyphen" by (simp add: slug_char_facts(4))
    have "dropWhile is_separator cs = cs"
    proof (cases cs)
      case Nil
      then show ?thesis by simp
    next
      case (Cons d ds)
      with c Cons.prems(2) have "d \<noteq> hyphen" by simp
      moreover have "is_slug_char d" using Cons.prems(1) Cons by simp
      ultimately have "\<not> is_separator d" by (simp add: slug_char_facts(4))
      with Cons show ?thesis by simp
    qed
    with True c IH show ?thesis by simp
  qed
qed

lemma collapsed_chars:
  assumes lowered: "\<And>s c. c \<in> set (toLowerCase s) \<Longrightarrow> \<not> is_upper c"
    and "c \<in> set (collapse (strip_symbols (trim (toLowerCase s))))"
  shows "is_slug_char c"
proof (cases "c = hyphen")
  case True
  then show ?thesis by (simp add: is_slug_char_def)
next
  case False
  let ?u = "strip_symbols (trim (toLowerCase s))"
  from assms(2) set_collapse [of ?u]
  have "c \<in> insert hyphen {c \<in> set ?u. \<not> is_separator c}" by (rule subsetD [rotated])
  with False have u: "c \<in> set ?u" and sep: "\<not> is_separator c"
    by simp_all
  from u have kept: "is_kept c" and t: "c \<in> set (trim (toLowerCase s))"
    by (simp_all add: strip_symbols_def)
  from t have "c \<in> set (toLowerCase s)"
    unfolding trim_def by (rule set_trim_both)
  then have "\<not> is_upper c"
    by (rule lowered)
  moreover from kept sep have "is_word c"
    unfolding is_kept_def is_separator_def by blast
  ultimately show ?thesis
    using sep unfolding is_slug_char_def by blast
qed

lemma slugify_shape:
  assumes lowered: "\<And>s c. c \<in> set (toLowerCase s) \<Longrightarrow> \<not> is_upper c"
  shows "(\<forall>c\<in>set (slugify toLowerCase s). is_slug_char c) \<and> no_double (slugify toLowerCase s)"
proof -
  let ?v = "collapse (strip_symbols (trim (toLowerCase s)))"
  obtain m n where t: "slugify toLowerCase s = take m (drop n ?v)"
    using trim_both_take_drop [of is_hyphen ?v] by (auto simp: slugify_def trim_hyphens_def)
  have "\<forall>c\<in>set (slugify toLowerCase s). is_slug_char c"
  proof
    fix c assume "c \<in> set (slugify toLowerCase s)"
    then have "c \<in> set ?v"
      unfolding t by (blast dest: in_set_takeD in_set_dropD)
    with lowered show "is_slug_char c" by (rule collapsed_chars)
  qed
  moreover have "no_double (slugify toLowerCase s)"
    unfolding t by (intro no_double_take no_double_drop no_double_collapse)
  ultimately show ?thesis by simp
qed

text \<open>
  The lowering of the ASCII capitals alone has the two properties of
  \<^verbatim>\<open>toLowerCase\<close> that the proof below needs, and with it \<open>slugify\<close> gives the
  slugs the specification lists.
\<close>

lemma ascii_lower_fixed:
  assumes "\<forall>c\<in>set t. is_slug_char c"
  shows "ascii_lower t = t"
  unfolding ascii_lower_def using assms by (intro map_idI) (simp add: slug_char_facts(3))

lemma ascii_lower_result:
  assumes "c \<in> set (ascii_lower s)"
  shows "\<not> is_upper c"
proof -
  from assms have "c \<in> (\<lambda>c. if is_upper c then c + 0x20 else c) ` set s"
    by (simp add: ascii_lower_def)
  then obtain d where c: "c = (if is_upper d then d + 0x20 else d)"
    by (rule imageE)
  show ?thesis
  proof (cases "is_upper d")
    case True
    then have "unat d + unat (0x20 :: 16 word) < 2 ^ LENGTH(16)"
      by (simp add: is_upper_def)
    then have "unat (d + 0x20) = unat d + unat (0x20 :: 16 word)"
      by (simp only: unat_add_lem [THEN iffD1])
    with True c show ?thesis
      by (simp add: is_upper_def)
  next
    case False
    with c show ?thesis by simp
  qed
qed

lemma slugify_examples:
  "slugify ascii_lower (js ''  Hello, World!  '') = js ''hello-world''"
  "slugify ascii_lower (js ''Already-Slugged'') = js ''already-slugged''"
  "slugify ascii_lower (js ''___multi   spaces---dash'') = js ''multi-spaces-dash''"
  by (simp_all add: slugify_def trim_hyphens_def strip_symbols_def trim_def ascii_lower_def
      is_kept_def is_word_def is_space_def is_separator_def is_hyphen_def is_upper_def
      hyphen_def js_def)

text \<open>
  Claim C9. Of \<^verbatim>\<open>toLowerCase\<close> let two things hold, as they do of the case
  tables of Unicode: it leaves a string of hyphens, digits and small ASCII letters as
  it is, and its result holds no ASCII capital. Then \<open>slugify\<close> is idempotent, for
  every string of UTF-16 code units: a slug is a fixed point of each of the five steps.
\<close>

theorem slugify_idempotent:
  assumes fixed: "\<And>t. \<forall>c\<in>set t. is_slug_char c \<Longrightarrow> toLowerCase t = t"
    and lowered: "\<And>s c. c \<in> set (toLowerCase s) \<Longrightarrow> \<not> is_upper c"
  shows "slugify toLowerCase (slugify toLowerCase s) = slugify toLowerCase s"
proof -
  let ?t = "slugify toLowerCase s"
  have chars: "\<forall>c\<in>set ?t. is_slug_char c" and nd: "no_double ?t"
    using slugify_shape [of toLowerCase s, OF lowered] by simp_all
  have lower: "toLowerCase ?t = ?t"
    using chars by (rule fixed)
  have "\<forall>c\<in>set ?t. \<not> is_space c"
    using chars by (simp add: slug_char_facts(1))
  then have trimmed: "trim ?t = ?t"
    unfolding trim_def by (rule trim_both_none)
  have kept: "strip_symbols ?t = ?t"
    unfolding strip_symbols_def using chars by (simp add: slug_char_facts(2))
  have collapsed: "collapse ?t = ?t"
    using chars nd by (rule collapse_fixed)
  have ends: "trim_hyphens ?t = ?t"
    by (simp only: slugify_def [of toLowerCase s] trim_hyphens_def trim_both_idem)
  have "slugify toLowerCase ?t
      = trim_hyphens (collapse (strip_symbols (trim (toLowerCase ?t))))"
    by (rule slugify_def)
  also have "\<dots> = ?t"
    by (simp only: lower trimmed kept collapsed ends)
  finally show ?thesis .
qed

theorem slugify_idempotent_witness:
  "slugify ascii_lower (slugify ascii_lower (js ''  Hello, World!  ''))
     = slugify ascii_lower (js ''  Hello, World!  '') \<and>
   slugify ascii_lower (js ''  Hello, World!  '') = js ''hello-world''"
  using slugify_idempotent [of ascii_lower "js ''  Hello, World!  ''",
      OF ascii_lower_fixed ascii_lower_result]
  by (simp add: slugify_examples(1))

end
